theory Spec2Isabelle
  imports Main "HOL-Library.AList"
begin

section \<open>The message router of the multi-agent game server (pacman/controller.py)\<close>

text \<open>
  The Controller owns five dictionaries indexed by agent identifier and a channel to the
  server. Each dictionary is an association list with one entry per key: a lookup is
  \<open>map_of\<close>, an assignment \<open>d[k] = v\<close> is \<open>AList.update k v\<close>, and \<open>del d[k]\<close> is
  \<open>AList.delete k\<close>. The order in which Python walks a dictionary is left open by the
  language, so every statement below that speaks of the keys of a dictionary speaks of
  them as a set.

  A missing key raises KeyError in Python. A handler therefore ends in one of two ways,
  and in both the dictionaries keep whatever was written before that point.
\<close>

subsection \<open>Values carried by messages\<close>

type_synonym agent_id = int
type_synonym position = "int \<times> int"
type_synonym action = string

datatype error = KeyError agent_id

record state_msg =
  sm_agent_id :: agent_id
  sm_wall_positions :: "position list"
  sm_food_positions :: "position list"
  sm_agent_positions :: "(agent_id \<times> position) list"
  sm_fragile_agents :: "(agent_id \<times> bool) list"
  sm_executed_action :: action
  sm_reward :: int
  sm_legal_actions :: "action list"
  sm_test_mode :: bool

text \<open>
  The kinds of message the channel can deliver. The payload of a registration is the
  agent identifier, the team and the name of the agent class; the payload of a game
  start is the agent identifier, the map width and the map height. \<open>OTHER_MSG\<close> stands
  for every message whose type is none of the seven that \<open>__process__\<close> tests for.
\<close>

datatype message =
    STATE_MSG state_msg
  | REQUEST_INIT_MSG agent_id
  | REQUEST_GAME_START_MSG agent_id int int
  | REQUEST_REGISTER_MSG agent_id string string
  | REQUEST_BEHAVIOR_COUNT_MSG agent_id
  | REQUEST_POLICY_MSG agent_id
  | POLICY_MSG agent_id string
  | OTHER_MSG string

datatype reply =
    AckMessage
  | ActionMessage agent_id action
  | BehaviorCountMessage int
  | PolicyMessage agent_id string

text \<open>What \<open>log\<close> prints, kept as the values that are formatted into the line.\<close>

datatype log_line =
    Ready
  | Now_running
  | Initialized string agent_id
  | Registered string agent_id string
  | Start_game string agent_id

subsection \<open>The collaborators: agent instances and session states\<close>

text \<open>
  Modelled from the spec: the agent classes (module agents, not part of the sources at
  hand). An instance is built from the class and (agent_id, ally_ids, enemy_ids); it
  holds a behavior counter that can be read and reset and a policy value that can be
  read and overwritten.
\<close>

record agent =
  ag_class :: string
  ag_id :: agent_id
  ag_ally_ids :: "agent_id list"
  ag_enemy_ids :: "agent_id list"
  behavior_count :: int
  policy :: string

text \<open>
  Modelled from the spec: the constructor of an agent class, called with (agent_id,
  ally_ids, enemy_ids). A new instance has counted no behavior yet; its policy is empty.
\<close>

definition new_agent :: "string \<Rightarrow> agent_id \<Rightarrow> agent_id list \<Rightarrow> agent_id list \<Rightarrow> agent" where
  "new_agent cls agent_id ally_ids enemy_ids =
     \<lparr>ag_class = cls, ag_id = agent_id, ag_ally_ids = ally_ids, ag_enemy_ids = enemy_ids,
      behavior_count = 0, policy = []\<rparr>"

text \<open>
  Modelled from the spec: the methods \<open>reset_behavior_count\<close>, \<open>get_policy\<close> and
  \<open>set_policy\<close> of an agent instance. The reset puts the counter at 0; the policy is
  read and overwritten as a whole.
\<close>

definition reset_behavior_count :: "agent \<Rightarrow> agent" where
  "reset_behavior_count a = a\<lparr>behavior_count := 0\<rparr>"

definition get_policy :: "agent \<Rightarrow> string" where
  "get_policy a = policy a"

definition set_policy :: "string \<Rightarrow> agent \<Rightarrow> agent" where
  "set_policy p a = a\<lparr>policy := p\<rparr>"

text \<open>
  Modelled from the spec: the class GameState (module state, not part of the sources at
  hand). A Session State holds the map dimensions, walls, food, the identifiers given
  at construction, the eater flag, the iteration, and the last observed position and
  fragility flag per agent. The forward simulation that \<open>predict_agent\<close> performs is
  outside the specification; the model keeps the calls it received, in order.
\<close>

record game_state =
  gs_width :: int
  gs_height :: int
  gs_walls :: "position list"
  gs_food_positions :: "position list"
  gs_agent_id :: agent_id
  gs_ally_ids :: "agent_id list"
  gs_enemy_ids :: "agent_id list"
  gs_eater :: bool
  gs_iteration :: int
  gs_agent_positions :: "(agent_id \<times> position) list"
  gs_fragile_agents :: "(agent_id \<times> bool) list"
  gs_predicted :: "(agent_id \<times> action) list"

text \<open>
  Modelled from the spec: the constructor of GameState. A new Session State holds what it
  is given and has observed no position and no fragility flag.
\<close>

definition GameState ::
  "int \<Rightarrow> int \<Rightarrow> position list \<Rightarrow> agent_id \<Rightarrow> agent_id list \<Rightarrow> agent_id list \<Rightarrow> bool \<Rightarrow> int
     \<Rightarrow> game_state" where
  "GameState width height walls agent_id ally_ids enemy_ids eater iteration =
     \<lparr>gs_width = width, gs_height = height, gs_walls = walls, gs_food_positions = [],
      gs_agent_id = agent_id, gs_ally_ids = ally_ids, gs_enemy_ids = enemy_ids,
      gs_eater = eater, gs_iteration = iteration,
      gs_agent_positions = [], gs_fragile_agents = [], gs_predicted = []\<rparr>"

text \<open>
  Modelled from the spec: the methods of GameState that the controller calls. The walls and
  the food are replaced as a whole; an observation overwrites what was known of that
  agent; \<open>predict_agent\<close> is kept as the call it was.
\<close>

definition set_walls :: "position list \<Rightarrow> game_state \<Rightarrow> game_state" where
  "set_walls ps gs = gs\<lparr>gs_walls := ps\<rparr>"

definition set_food_positions :: "position list \<Rightarrow> game_state \<Rightarrow> game_state" where
  "set_food_positions ps gs = gs\<lparr>gs_food_positions := ps\<rparr>"

definition observe_agent :: "agent_id \<Rightarrow> position \<Rightarrow> game_state \<Rightarrow> game_state" where
  "observe_agent i pos gs = gs\<lparr>gs_agent_positions := AList.update i pos (gs_agent_positions gs)\<rparr>"

definition observe_fragile_agent :: "agent_id \<Rightarrow> bool \<Rightarrow> game_state \<Rightarrow> game_state" where
  "observe_fragile_agent i status gs =
     gs\<lparr>gs_fragile_agents := AList.update i status (gs_fragile_agents gs)\<rparr>"

definition predict_agent :: "agent_id \<Rightarrow> action \<Rightarrow> game_state \<Rightarrow> game_state" where
  "predict_agent i a gs = gs\<lparr>gs_predicted := gs_predicted gs @ [(i, a)]\<rparr>"

text \<open>
  The decision routine \<open>choose_action\<close> of an agent instance is a parameter of the model.
  It is given the instance, the Session State, the executed action, the reward, the legal
  actions and the test-mode flag; it returns the chosen action and the instance as the
  call left it. It reads the Session State and does not raise.
\<close>

type_synonym decision =
  "agent \<Rightarrow> game_state \<Rightarrow> action \<Rightarrow> int \<Rightarrow> action list \<Rightarrow> bool \<Rightarrow> action \<times> agent"

subsection \<open>The controller\<close>

type_synonym tables =
  "(agent_id \<times> agent) list \<times> (agent_id \<times> string) list \<times> (agent_id \<times> string) list \<times>
   (agent_id \<times> game_state) list \<times> (agent_id \<times> int) list \<times> action option"

text \<open>
  \<open>last_action\<close> is \<open>None\<close> until \<open>run\<close> assigns it. \<open>sent\<close> is the channel: the replies
  handed to \<open>server.send\<close>, oldest first. \<open>seen_at_send\<close> is kept beside it for
  stating when a reply leaves: the dictionaries as they stood at each call of
  \<open>server.send\<close>. \<open>logged\<close> is what \<open>log\<close> printed.
\<close>

record controller =
  agents :: "(agent_id \<times> agent) list"
  agent_classes :: "(agent_id \<times> string) list"
  agent_teams :: "(agent_id \<times> string) list"
  game_states :: "(agent_id \<times> game_state) list"
  game_number :: "(agent_id \<times> int) list"
  last_action :: "action option"
  sent :: "reply list"
  seen_at_send :: "tables list"
  logged :: "log_line list"

datatype 'a result = Returned 'a controller | Raised error controller

definition tables_of :: "controller \<Rightarrow> tables" where
  "tables_of c =
     (agents c, agent_classes c, agent_teams c, game_states c, game_number c, last_action c)"

definition log :: "log_line \<Rightarrow> controller \<Rightarrow> controller" where
  "log l c = c\<lparr>logged := logged c @ [l]\<rparr>"

definition server_send :: "reply \<Rightarrow> controller \<Rightarrow> controller" where
  "server_send r c = c\<lparr>sent := sent c @ [r], seen_at_send := seen_at_send c @ [tables_of c]\<rparr>"

text \<open>\<open>__init__\<close>: every dictionary empty, then \<open>log('Ready')\<close>.\<close>

definition init_controller :: controller where
  "init_controller =
     \<lparr>agents = [], agent_classes = [], agent_teams = [], game_states = [], game_number = [],
      last_action = None, sent = [], seen_at_send = [], logged = [Ready]\<rparr>"

text \<open>
  \<open>__get_allies__\<close> and \<open>__get_enemies__\<close>: the comprehension looks
  \<open>self.agent_teams[agent_id]\<close> up once per registered agent, so the lookup fails only
  when there is at least one registration and none for \<open>agent_id\<close>.
\<close>

definition get_allies :: "agent_id \<Rightarrow> controller \<Rightarrow> error + agent_id list" where
  "get_allies agent_id c =
     (if agent_teams c = [] then Inr []
      else case map_of (agent_teams c) agent_id of
             None \<Rightarrow> Inl (KeyError agent_id)
           | Some team \<Rightarrow>
               Inr (filter (\<lambda>i. map_of (agent_teams c) i = Some team \<and> i \<noteq> agent_id)
                      (map fst (agent_teams c))))"

definition get_enemies :: "agent_id \<Rightarrow> controller \<Rightarrow> error + agent_id list" where
  "get_enemies agent_id c =
     (if agent_teams c = [] then Inr []
      else case map_of (agent_teams c) agent_id of
             None \<Rightarrow> Inl (KeyError agent_id)
           | Some team \<Rightarrow>
               Inr (filter (\<lambda>i. map_of (agent_teams c) i \<noteq> Some team \<and> i \<noteq> agent_id)
                      (map fst (agent_teams c))))"

text \<open>\<open>__initialize_agent__\<close>, statement by statement.\<close>

definition initialize_agent :: "agent_id \<Rightarrow> controller \<Rightarrow> unit result" where
  "initialize_agent agent_id c =
     (case get_allies agent_id c of
        Inl e \<Rightarrow> Raised e c
      | Inr ally_ids \<Rightarrow>
     (case get_enemies agent_id c of
        Inl e \<Rightarrow> Raised e c
      | Inr enemy_ids \<Rightarrow>
     (let c1 = (if map_of (agents c) agent_id \<noteq> None
                then c\<lparr>agents := AList.delete agent_id (agents c)\<rparr> else c);
          c2 = c1\<lparr>game_number := AList.update agent_id 0 (game_number c1)\<rparr>
      in case map_of (agent_classes c2) agent_id of
           None \<Rightarrow> Raised (KeyError agent_id) c2
         | Some cls \<Rightarrow>
        (let c3 = c2\<lparr>agents := AList.update agent_id
                                  (new_agent cls agent_id ally_ids enemy_ids) (agents c2)\<rparr>
         in case map_of (agent_teams c3) agent_id of
              None \<Rightarrow> Raised (KeyError agent_id) c3
            | Some team \<Rightarrow>
                Returned () (server_send AckMessage (log (Initialized team agent_id) c3))))))"

text \<open>\<open>__register_agent__\<close>.\<close>

definition register_agent :: "agent_id \<Rightarrow> string \<Rightarrow> string \<Rightarrow> controller \<Rightarrow> unit result" where
  "register_agent agent_id agent_team agent_class c =
     (let c1 = c\<lparr>agent_classes := AList.update agent_id agent_class (agent_classes c)\<rparr>;
          c2 = c1\<lparr>agent_teams := AList.update agent_id agent_team (agent_teams c1)\<rparr>
      in Returned () (server_send AckMessage (log (Registered agent_team agent_id agent_class) c2)))"

text \<open>
  \<open>__request_behavior_count__\<close>: the count is read, the reply is sent, and only then is
  the counter reset.
\<close>

definition request_behavior_count :: "agent_id \<Rightarrow> controller \<Rightarrow> unit result" where
  "request_behavior_count agent_id c =
     (case map_of (agents c) agent_id of
        None \<Rightarrow> Raised (KeyError agent_id) c
      | Some a \<Rightarrow>
     (let count = behavior_count a;
          c1 = server_send (BehaviorCountMessage count) c
      in case map_of (agents c1) agent_id of
           None \<Rightarrow> Raised (KeyError agent_id) c1
         | Some a1 \<Rightarrow>
             Returned () (c1\<lparr>agents := AList.update agent_id (reset_behavior_count a1)
                                         (agents c1)\<rparr>)))"

text \<open>\<open>__send_policy_request__\<close> and \<open>__set_agent_policy__\<close>.\<close>

definition send_policy_request :: "agent_id \<Rightarrow> controller \<Rightarrow> unit result" where
  "send_policy_request agent_id c =
     (case map_of (agents c) agent_id of
        None \<Rightarrow> Raised (KeyError agent_id) c
      | Some a \<Rightarrow> Returned () (server_send (PolicyMessage agent_id (get_policy a)) c))"

definition set_agent_policy :: "agent_id \<Rightarrow> string \<Rightarrow> controller \<Rightarrow> unit result" where
  "set_agent_policy agent_id p c =
     (case map_of (agents c) agent_id of
        None \<Rightarrow> Raised (KeyError agent_id) c
      | Some a \<Rightarrow>
          Returned () (server_send AckMessage
                         (c\<lparr>agents := AList.update agent_id (set_policy p a) (agents c)\<rparr>)))"

text \<open>
  \<open>__start_game_for_agent__\<close>. The closing \<open>log\<close> looks the team up a second time in a
  dictionary that has not changed since the first lookup.
\<close>

definition start_game_for_agent :: "agent_id \<Rightarrow> int \<Rightarrow> int \<Rightarrow> controller \<Rightarrow> unit result" where
  "start_game_for_agent agent_id map_width map_height c =
     (case get_allies agent_id c of
        Inl e \<Rightarrow> Raised e c
      | Inr ally_ids \<Rightarrow>
     (case get_enemies agent_id c of
        Inl e \<Rightarrow> Raised e c
      | Inr enemy_ids \<Rightarrow>
     (case map_of (agent_teams c) agent_id of
        None \<Rightarrow> Raised (KeyError agent_id) c
      | Some team \<Rightarrow>
     (let eater = (team = ''pacman'');
          c1 = (if map_of (game_states c) agent_id \<noteq> None
                then c\<lparr>game_states := AList.delete agent_id (game_states c)\<rparr> else c)
      in case map_of (game_number c1) agent_id of
           None \<Rightarrow> Raised (KeyError agent_id) c1
         | Some iteration \<Rightarrow>
        (let c2 = c1\<lparr>game_states := AList.update agent_id
                        (GameState map_width map_height [] agent_id ally_ids enemy_ids
                           eater iteration)
                        (game_states c1)\<rparr>
         in Returned () (log (Start_game team agent_id) (server_send AckMessage c2)))))))"

text \<open>
  \<open>__choose_action__\<close>. Each pass of the two observation loops looks the acting agent's
  Session State up again. The last loop walks the keys of \<open>self.game_states\<close>, the
  controller's dictionary of Session States, and calls \<open>predict_agent\<close> on the acting
  agent's Session State for each of them.
\<close>

fun observe_agents :: "agent_id \<Rightarrow> (agent_id \<times> position) list \<Rightarrow> controller \<Rightarrow> unit result" where
  "observe_agents a [] c = Returned () c"
| "observe_agents a ((i, pos) # rest) c =
     (case map_of (game_states c) a of
        None \<Rightarrow> Raised (KeyError a) c
      | Some gs \<Rightarrow>
          observe_agents a rest
            (c\<lparr>game_states := AList.update a (observe_agent i pos gs) (game_states c)\<rparr>))"

fun observe_fragile_agents :: "agent_id \<Rightarrow> (agent_id \<times> bool) list \<Rightarrow> controller \<Rightarrow> unit result" where
  "observe_fragile_agents a [] c = Returned () c"
| "observe_fragile_agents a ((i, status) # rest) c =
     (case map_of (game_states c) a of
        None \<Rightarrow> Raised (KeyError a) c
      | Some gs \<Rightarrow>
          observe_fragile_agents a rest
            (c\<lparr>game_states := AList.update a (observe_fragile_agent i status gs) (game_states c)\<rparr>))"

definition predict_agents :: "agent_id list \<Rightarrow> action \<Rightarrow> game_state \<Rightarrow> game_state" where
  "predict_agents ids agent_action gs = fold (\<lambda>i. predict_agent i agent_action) ids gs"

definition choose_action :: "decision \<Rightarrow> state_msg \<Rightarrow> controller \<Rightarrow> action result" where
  "choose_action decide state c =
     (case observe_agents (sm_agent_id state) (sm_agent_positions state) c of
        Raised e c1 \<Rightarrow> Raised e c1
      | Returned _ c1 \<Rightarrow>
     (case observe_fragile_agents (sm_agent_id state) (sm_fragile_agents state) c1 of
        Raised e c2 \<Rightarrow> Raised e c2
      | Returned _ c2 \<Rightarrow>
     (case map_of (game_states c2) (sm_agent_id state) of
        None \<Rightarrow> Raised (KeyError (sm_agent_id state)) c2
      | Some agent_state \<Rightarrow>
     (case map_of (agents c2) (sm_agent_id state) of
        None \<Rightarrow> Raised (KeyError (sm_agent_id state)) c2
      | Some a \<Rightarrow>
     (case decide a agent_state (sm_executed_action state) (sm_reward state)
             (sm_legal_actions state) (sm_test_mode state) of
        (agent_action, a') \<Rightarrow>
     (let c3 = c2\<lparr>agents := AList.update (sm_agent_id state) a' (agents c2)\<rparr>;
          c4 = c3\<lparr>game_states := AList.update (sm_agent_id state)
                     (predict_agents (map fst (game_states c3)) agent_action agent_state)
                     (game_states c3)\<rparr>
      in Returned agent_action c4))))))"

text \<open>\<open>__send_agent_action__\<close>.\<close>

definition send_agent_action :: "decision \<Rightarrow> state_msg \<Rightarrow> controller \<Rightarrow> action result" where
  "send_agent_action decide msg c =
     (case map_of (game_states c) (sm_agent_id msg) of
        None \<Rightarrow> Raised (KeyError (sm_agent_id msg)) c
      | Some game_state \<Rightarrow>
     (let c1 = c\<lparr>game_states := AList.update (sm_agent_id msg)
                    (set_food_positions (sm_food_positions msg)
                       (set_walls (sm_wall_positions msg) game_state))
                    (game_states c)\<rparr>
      in case choose_action decide msg c1 of
           Raised e c2 \<Rightarrow> Raised e c2
         | Returned agent_action c2 \<Rightarrow>
             Returned agent_action
               (server_send (ActionMessage (sm_agent_id msg) agent_action) c2)))"

text \<open>
  \<open>__process__\<close>: an \<open>if\<close>/\<open>elif\<close> chain over the message type with no final \<open>else\<close>.
  The branch for a game start increments the episode counter after the handler has
  returned; the branch for a state message stores the returned action.
\<close>

fun process :: "decision \<Rightarrow> message \<Rightarrow> controller \<Rightarrow> unit result" where
  "process decide (STATE_MSG msg) c =
     (case send_agent_action decide msg c of
        Raised e c1 \<Rightarrow> Raised e c1
      | Returned agent_action c1 \<Rightarrow> Returned () (c1\<lparr>last_action := Some agent_action\<rparr>))"
| "process decide (REQUEST_INIT_MSG agent_id) c = initialize_agent agent_id c"
| "process decide (REQUEST_GAME_START_MSG agent_id map_width map_height) c =
     (case start_game_for_agent agent_id map_width map_height c of
        Raised e c1 \<Rightarrow> Raised e c1
      | Returned _ c1 \<Rightarrow>
         (case map_of (game_number c1) agent_id of
            None \<Rightarrow> Raised (KeyError agent_id) c1
          | Some n \<Rightarrow>
              Returned () (c1\<lparr>game_number := AList.update agent_id (n + 1) (game_number c1)\<rparr>)))"
| "process decide (REQUEST_REGISTER_MSG agent_id agent_team agent_class) c =
     register_agent agent_id agent_team agent_class c"
| "process decide (REQUEST_BEHAVIOR_COUNT_MSG agent_id) c = request_behavior_count agent_id c"
| "process decide (REQUEST_POLICY_MSG agent_id) c = send_policy_request agent_id c"
| "process decide (POLICY_MSG agent_id p) c = set_agent_policy agent_id p c"
| "process decide (OTHER_MSG kind) c = Returned () c"

text \<open>
  \<open>run\<close>: the loop takes one message after the other from the channel and never returns
  by itself. \<open>run_loop\<close> is given the messages the channel delivers; it returns the
  controller blocked in \<open>receive\<close> once all of them are handled, and it stops at the
  first handler that raises, since nothing catches the exception.
\<close>

fun run_loop :: "decision \<Rightarrow> message list \<Rightarrow> controller \<Rightarrow> unit result" where
  "run_loop decide [] c = Returned () c"
| "run_loop decide (msg # msgs) c =
     (case process decide msg c of
        Raised e c1 \<Rightarrow> Raised e c1
      | Returned _ c1 \<Rightarrow> run_loop decide msgs c1)"

definition run :: "decision \<Rightarrow> message list \<Rightarrow> controller \<Rightarrow> unit result" where
  "run decide msgs c =
     run_loop decide msgs ((log Now_running c)\<lparr>last_action := Some ''Stop''\<rparr>)"

subsection \<open>Reading a result\<close>

fun controller_of :: "'a result \<Rightarrow> controller" where
  "controller_of (Returned _ c) = c"
| "controller_of (Raised _ c) = c"

fun returned :: "'a result \<Rightarrow> bool" where
  "returned (Returned _ _) = True"
| "returned (Raised _ _) = False"

fun raised_error :: "'a result \<Rightarrow> error option" where
  "raised_error (Returned _ _) = None"
| "raised_error (Raised e _) = Some e"




subsection \<open>Notions used to state the properties\<close>

text \<open>
  The Session State that the decision routine is shown for a state message: the walls and
  food replaced, then every position and every fragility flag of the payload observed.
\<close>

definition observed :: "state_msg \<Rightarrow> game_state \<Rightarrow> game_state" where
  "observed m gs =
     fold (\<lambda>(i, status). observe_fragile_agent i status) (sm_fragile_agents m)
       (fold (\<lambda>(i, pos). observe_agent i pos) (sm_agent_positions m)
          (set_food_positions (sm_food_positions m) (set_walls (sm_wall_positions m) gs)))"



text \<open>
  The action that the decision routine of the acting instance returns for a state message:
  it is called with the Session State as \<open>observed\<close> and with the executed action, the
  reward, the legal actions and the test-mode flag of the message.
\<close>

definition decided_action :: "decision \<Rightarrow> state_msg \<Rightarrow> agent \<Rightarrow> game_state \<Rightarrow> action" where
  "decided_action decide m ag gs =
     fst (decide ag (observed m gs) (sm_executed_action m) (sm_reward m)
            (sm_legal_actions m) (sm_test_mode m))"

text \<open>
  The episode counter of agent \<open>i\<close> as the messages prescribe it: an INIT for \<open>i\<close> sets
  it to 0, a game start for \<open>i\<close> adds one, nothing else touches it. \<open>None\<close> is an agent
  without a counter.
\<close>

fun counter_step :: "agent_id \<Rightarrow> message \<Rightarrow> int option \<Rightarrow> int option" where
  "counter_step i (REQUEST_INIT_MSG j) n = (if j = i then Some 0 else n)"
| "counter_step i (REQUEST_GAME_START_MSG j w h) n =
     (if j = i then map_option (\<lambda>k. k + 1) n else n)"
| "counter_step i m n = n"

fun episode_counter :: "agent_id \<Rightarrow> message list \<Rightarrow> int option \<Rightarrow> int option" where
  "episode_counter i [] n = n"
| "episode_counter i (m # ms) n = episode_counter i ms (counter_step i m n)"

text \<open>
  The dictionaries of a controller that has only ever returned from its handlers agree on
  their keys: every instance has a registration and an episode counter, every episode
  counter and every Session State belongs to an instance.
\<close>

definition consistent :: "controller \<Rightarrow> bool" where
  "consistent c \<longleftrightarrow>
     dom (map_of (agents c)) \<subseteq> dom (map_of (agent_classes c)) \<and>
     dom (map_of (agents c)) \<subseteq> dom (map_of (agent_teams c)) \<and>
     dom (map_of (game_number c)) = dom (map_of (agents c)) \<and>
     dom (map_of (game_states c)) \<subseteq> dom (map_of (agents c))"

subsection \<open>Worked examples\<close>

text \<open>A decision routine that counts its calls and takes the first legal action.\<close>

definition first_legal :: decision where
  "first_legal a gs executed reward legal test_mode =
     (case legal of [] \<Rightarrow> ''Stop'' | x # _ \<Rightarrow> x, a\<lparr>behavior_count := behavior_count a + 1\<rparr>)"

definition example_state ::
  "agent_id \<Rightarrow> (agent_id \<times> position) list \<Rightarrow> (agent_id \<times> bool) list \<Rightarrow> state_msg" where
  "example_state i ps fs =
     \<lparr>sm_agent_id = i, sm_wall_positions = [(0, 0)], sm_food_positions = [(1, 1)],
      sm_agent_positions = ps, sm_fragile_agents = fs, sm_executed_action = ''Stop'',
      sm_reward = 0, sm_legal_actions = [''North'', ''Stop''], sm_test_mode = False\<rparr>"

definition pacman_started :: "message list" where
  "pacman_started =
     [REQUEST_REGISTER_MSG 1 ''pacman'' ''PacmanAgent'', REQUEST_INIT_MSG 1,
      REQUEST_GAME_START_MSG 1 10 10]"

definition pacman_and_ghost :: "message list" where
  "pacman_and_ghost =
     [REQUEST_REGISTER_MSG 1 ''pacman'' ''PacmanAgent'',
      REQUEST_REGISTER_MSG 2 ''ghost'' ''GhostAgent'', REQUEST_INIT_MSG 1,
      REQUEST_GAME_START_MSG 1 10 10]"

text \<open>The controller after \<open>run\<close> has handled the given messages, starting from a new one.\<close>

definition after_messages :: "message list \<Rightarrow> controller" where
  "after_messages ms = controller_of (run first_legal ms init_controller)"

section \<open>Facts about the handlers\<close>

lemmas effect_defs = log_def server_send_def tables_of_def

lemmas model_defs =
  run_def init_controller_def initialize_agent_def register_agent_def
  request_behavior_count_def send_policy_request_def set_agent_policy_def
  start_game_for_agent_def choose_action_def send_agent_action_def get_allies_def
  get_enemies_def log_def server_send_def tables_of_def new_agent_def GameState_def
  reset_behavior_count_def get_policy_def set_policy_def set_walls_def set_food_positions_def
  observe_agent_def observe_fragile_agent_def predict_agent_def predict_agents_def
  first_legal_def example_state_def pacman_started_def pacman_and_ghost_def
  after_messages_def Let_def

subsection \<open>Association lists\<close>

lemma update_existing_keys:
  "map_of al k = Some v \<Longrightarrow> map fst (AList.update k w al) = map fst al"
  by (simp add: update_keys) (metis domI dom_map_of_conv_image_fst set_map)


subsection \<open>The observation loops and the prediction loop\<close>

lemma observe_agents_returns:
  "map_of (game_states c) a = Some gs \<Longrightarrow>
     observe_agents a ps c =
       Returned () (c\<lparr>game_states :=
          AList.update a (fold (\<lambda>(i, pos). observe_agent i pos) ps gs) (game_states c)\<rparr>)"
proof (induction ps arbitrary: c gs)
  case Nil
  then show ?case by (simp add: update_triv)
next
  case (Cons p ps)
  obtain i pos where p: "p = (i, pos)" by (cases p)
  let ?c1 = "c\<lparr>game_states := AList.update a (observe_agent i pos gs) (game_states c)\<rparr>"
  have "map_of (game_states ?c1) a = Some (observe_agent i pos gs)"
    by (simp add: update_conv')
  from Cons.IH [OF this] show ?case
    using Cons.prems by (simp add: p)
qed

lemma observe_fragile_agents_returns:
  "map_of (game_states c) a = Some gs \<Longrightarrow>
     observe_fragile_agents a ps c =
       Returned () (c\<lparr>game_states :=
          AList.update a (fold (\<lambda>(i, status). observe_fragile_agent i status) ps gs)
            (game_states c)\<rparr>)"
proof (induction ps arbitrary: c gs)
  case Nil
  then show ?case by (simp add: update_triv)
next
  case (Cons p ps)
  obtain i status where p: "p = (i, status)" by (cases p)
  let ?c1 = "c\<lparr>game_states :=
               AList.update a (observe_fragile_agent i status gs) (game_states c)\<rparr>"
  have "map_of (game_states ?c1) a = Some (observe_fragile_agent i status gs)"
    by (simp add: update_conv')
  from Cons.IH [OF this] show ?case
    using Cons.prems by (simp add: p)
qed

lemma fold_observe_agent_predicted:
  "gs_predicted (fold (\<lambda>(i, pos). observe_agent i pos) ps gs) = gs_predicted gs"
  by (induction ps arbitrary: gs) (auto simp: observe_agent_def)

lemma fold_observe_fragile_predicted:
  "gs_predicted (fold (\<lambda>(i, s). observe_fragile_agent i s) ps gs) = gs_predicted gs"
  by (induction ps arbitrary: gs) (auto simp: observe_fragile_agent_def)

lemma observed_predicted: "gs_predicted (observed m gs) = gs_predicted gs"
  by (simp add: observed_def fold_observe_agent_predicted fold_observe_fragile_predicted
        set_food_positions_def set_walls_def)

lemma predict_agents_predicted:
  "gs_predicted (predict_agents ids act gs) = gs_predicted gs @ map (\<lambda>j. (j, act)) ids"
  unfolding predict_agents_def
  by (induction ids arbitrary: gs) (auto simp: predict_agent_def)

subsection \<open>The three ways a state message can end\<close>

lemma send_agent_action_no_session:
  "map_of (game_states c) (sm_agent_id m) = None \<Longrightarrow>
     send_agent_action decide m c = Raised (KeyError (sm_agent_id m)) c"
  by (simp add: send_agent_action_def)

lemma send_agent_action_no_agent:
  assumes gs: "map_of (game_states c) (sm_agent_id m) = Some gs"
    and ag: "map_of (agents c) (sm_agent_id m) = None"
  shows "send_agent_action decide m c =
     Raised (KeyError (sm_agent_id m))
       (c\<lparr>game_states := AList.update (sm_agent_id m) (observed m gs) (game_states c)\<rparr>)"
proof -
  let ?a = "sm_agent_id m"
  let ?g1 = "set_food_positions (sm_food_positions m) (set_walls (sm_wall_positions m) gs)"
  let ?c1 = "c\<lparr>game_states := AList.update ?a ?g1 (game_states c)\<rparr>"
  have 1: "map_of (game_states ?c1) ?a = Some ?g1" by (simp add: update_conv')
  let ?g2 = "fold (\<lambda>(i, pos). observe_agent i pos) (sm_agent_positions m) ?g1"
  let ?c2 = "?c1\<lparr>game_states := AList.update ?a ?g2 (game_states ?c1)\<rparr>"
  have o1: "observe_agents ?a (sm_agent_positions m) ?c1 = Returned () ?c2"
    by (rule observe_agents_returns [OF 1])
  have 2: "map_of (game_states ?c2) ?a = Some ?g2" by (simp add: update_conv')
  let ?c3 = "?c2\<lparr>game_states := AList.update ?a (observed m gs) (game_states ?c2)\<rparr>"
  have o2: "observe_fragile_agents ?a (sm_fragile_agents m) ?c2 = Returned () ?c3"
    using observe_fragile_agents_returns [OF 2, of "sm_fragile_agents m"]
    by (simp add: observed_def)
  have 3: "map_of (game_states ?c3) ?a = Some (observed m gs)" by (simp add: update_conv')
  have 4: "map_of (agents ?c3) ?a = None" using ag by simp
  have "choose_action decide m ?c1 = Raised (KeyError ?a) ?c3"
    unfolding choose_action_def
    apply (simp only: o1 result.case)
    apply (simp only: o2 result.case)
    apply (simp only: 3 4 option.case)
    done
  then show ?thesis
    using gs by (simp add: send_agent_action_def)
qed

lemma send_agent_action_returns:
  assumes gs: "map_of (game_states c) (sm_agent_id m) = Some gs"
    and ag: "map_of (agents c) (sm_agent_id m) = Some ag"
    and d: "decide ag (observed m gs) (sm_executed_action m) (sm_reward m)
              (sm_legal_actions m) (sm_test_mode m) = (act, ag')"
  shows "send_agent_action decide m c =
     Returned act (server_send (ActionMessage (sm_agent_id m) act)
       (c\<lparr>agents := AList.update (sm_agent_id m) ag' (agents c),
          game_states := AList.update (sm_agent_id m)
             (predict_agents (map fst (game_states c)) act (observed m gs)) (game_states c)\<rparr>))"
proof -
  let ?a = "sm_agent_id m"
  let ?g1 = "set_food_positions (sm_food_positions m) (set_walls (sm_wall_positions m) gs)"
  let ?c1 = "c\<lparr>game_states := AList.update ?a ?g1 (game_states c)\<rparr>"
  have 1: "map_of (game_states ?c1) ?a = Some ?g1" by (simp add: update_conv')
  let ?g2 = "fold (\<lambda>(i, pos). observe_agent i pos) (sm_agent_positions m) ?g1"
  let ?c2 = "?c1\<lparr>game_states := AList.update ?a ?g2 (game_states ?c1)\<rparr>"
  have o1: "observe_agents ?a (sm_agent_positions m) ?c1 = Returned () ?c2"
    by (rule observe_agents_returns [OF 1])
  have 2: "map_of (game_states ?c2) ?a = Some ?g2" by (simp add: update_conv')
  let ?c3 = "?c2\<lparr>game_states := AList.update ?a (observed m gs) (game_states ?c2)\<rparr>"
  have o2: "observe_fragile_agents ?a (sm_fragile_agents m) ?c2 = Returned () ?c3"
    using observe_fragile_agents_returns [OF 2, of "sm_fragile_agents m"]
    by (simp add: observed_def)
  have 3: "map_of (game_states ?c3) ?a = Some (observed m gs)" by (simp add: update_conv')
  have 4: "map_of (agents ?c3) ?a = Some ag" using ag by simp
  have keys: "map fst (AList.update ?a x (game_states c)) = map fst (game_states c)" for x
    by (rule update_existing_keys [OF gs])
  have "choose_action decide m ?c1 =
     Returned act (c\<lparr>agents := AList.update ?a ag' (agents c),
          game_states := AList.update ?a
             (predict_agents (map fst (game_states c)) act (observed m gs)) (game_states c)\<rparr>)"
    unfolding choose_action_def
    apply (simp only: o1 result.case)
    apply (simp only: o2 result.case)
    apply (simp only: 3 4 option.case d prod.case Let_def)
    apply (simp add: keys)
    done
  then show ?thesis
    using gs by (simp add: send_agent_action_def)
qed

subsection \<open>Allies, enemies, registration and initialization\<close>

lemma key_of_entry: "map_of al k = Some v \<Longrightarrow> k \<in> fst ` set al"
  by (metis map_of_eq_None_iff option.distinct(1))

lemma get_allies_set:
  assumes "get_allies i c = Inr allies" and "map_of (agent_teams c) i = Some t"
  shows "set allies = {j. j \<noteq> i \<and> map_of (agent_teams c) j = Some t}"
  using assms
  by (auto simp add: get_allies_def split: if_splits intro: key_of_entry)

lemma get_enemies_set:
  assumes "get_enemies i c = Inr enemies" and "map_of (agent_teams c) i = Some t"
  shows "set enemies = {j. j \<noteq> i \<and> (\<exists>u. map_of (agent_teams c) j = Some u \<and> u \<noteq> t)}"
proof -
  have "agent_teams c \<noteq> []" using assms(2) by auto
  then have e: "enemies =
      filter (\<lambda>j. map_of (agent_teams c) j \<noteq> Some t \<and> j \<noteq> i) (map fst (agent_teams c))"
    using assms by (simp add: get_enemies_def)
  have keys: "j \<in> fst ` set (agent_teams c) \<longleftrightarrow> map_of (agent_teams c) j \<noteq> None" for j
    by (simp add: map_of_eq_None_iff)
  show ?thesis
    unfolding e by (auto simp add: keys)
qed

lemma get_allies_cong: "agent_teams c = agent_teams d \<Longrightarrow> get_allies i c = get_allies i d"
  by (simp add: get_allies_def split: option.split)

lemma get_enemies_cong: "agent_teams c = agent_teams d \<Longrightarrow> get_enemies i c = get_enemies i d"
  by (simp add: get_enemies_def split: option.split)

lemma register_agent_returns:
  "register_agent i t k c =
     Returned () (server_send AckMessage (log (Registered t i k)
       (c\<lparr>agent_classes := AList.update i k (agent_classes c),
          agent_teams := AList.update i t (agent_teams c)\<rparr>)))"
  by (simp add: register_agent_def)

lemma initialize_agent_returns:
  assumes "map_of (agent_classes c) i = Some cls" and "map_of (agent_teams c) i = Some team"
  shows "\<exists>allies enemies c'. get_allies i c = Inr allies \<and> get_enemies i c = Inr enemies \<and>
     initialize_agent i c = Returned () c' \<and>
     map_of (agents c') = (map_of (agents c))(i \<mapsto> new_agent cls i allies enemies) \<and>
     sent c' = sent c @ [AckMessage]"
  using assms
  by (auto simp add: initialize_agent_def get_allies_def get_enemies_def effect_defs update_conv'
        delete_conv' Let_def)

subsection \<open>Which keys a handler that returns has written\<close>

lemma state_domains:
  assumes "process decide (STATE_MSG s) c = Returned () c'"
  shows "dom (map_of (agents c')) = dom (map_of (agents c))"
    and "dom (map_of (game_states c')) = dom (map_of (game_states c))"
    and "agent_classes c' = agent_classes c" and "agent_teams c' = agent_teams c"
    and "game_number c' = game_number c"
proof -
  obtain gs where gs: "map_of (game_states c) (sm_agent_id s) = Some gs"
    using assms by (cases "map_of (game_states c) (sm_agent_id s)")
      (simp_all add: send_agent_action_no_session)
  obtain ag where ag: "map_of (agents c) (sm_agent_id s) = Some ag"
    using assms gs by (cases "map_of (agents c) (sm_agent_id s)")
      (simp_all add: send_agent_action_no_agent)
  obtain act ag' where d: "decide ag (observed s gs) (sm_executed_action s) (sm_reward s)
          (sm_legal_actions s) (sm_test_mode s) = (act, ag')"
    by (cases "decide ag (observed s gs) (sm_executed_action s) (sm_reward s)
          (sm_legal_actions s) (sm_test_mode s)")
  have in_keys: "sm_agent_id s \<in> dom (map_of (game_states c))"
    "sm_agent_id s \<in> dom (map_of (agents c))"
    using gs ag by auto
  have c': "c' = (server_send (ActionMessage (sm_agent_id s) act)
      (c\<lparr>agents := AList.update (sm_agent_id s) ag' (agents c),
         game_states := AList.update (sm_agent_id s)
           (predict_agents (map fst (game_states c)) act (observed s gs)) (game_states c)\<rparr>))
      \<lparr>last_action := Some act\<rparr>"
    using send_agent_action_returns [where decide = decide, OF gs ag d] assms by simp
  show "dom (map_of (agents c')) = dom (map_of (agents c))"
    "dom (map_of (game_states c')) = dom (map_of (game_states c))"
    "agent_classes c' = agent_classes c" "agent_teams c' = agent_teams c"
    "game_number c' = game_number c"
    using in_keys by (simp_all add: c' effect_defs update_conv' insert_absorb)
qed

lemma init_domains:
  assumes "process decide (REQUEST_INIT_MSG j) c = Returned () c'"
  shows "dom (map_of (agents c')) = insert j (dom (map_of (agents c)))"
    and "dom (map_of (game_number c')) = insert j (dom (map_of (game_number c)))"
    and "j \<in> dom (map_of (agent_classes c))" and "j \<in> dom (map_of (agent_teams c))"
    and "agent_classes c' = agent_classes c" and "agent_teams c' = agent_teams c"
    and "game_states c' = game_states c"
  using assms
  by (auto simp add: initialize_agent_def effect_defs Let_def update_conv' delete_conv'
        split: sum.splits option.splits if_splits)

lemma game_start_domains:
  assumes "process decide (REQUEST_GAME_START_MSG j w h) c = Returned () c'"
  shows "dom (map_of (game_states c')) = insert j (dom (map_of (game_states c)))"
    and "dom (map_of (game_number c')) = dom (map_of (game_number c))"
    and "j \<in> dom (map_of (game_number c))"
    and "agent_classes c' = agent_classes c" and "agent_teams c' = agent_teams c"
    and "agents c' = agents c"
  using assms
  by (auto simp add: start_game_for_agent_def effect_defs Let_def update_conv' delete_conv'
        split: sum.splits option.splits if_splits)

lemma register_domains:
  assumes "process decide (REQUEST_REGISTER_MSG j t k) c = Returned () c'"
  shows "dom (map_of (agent_classes c')) = insert j (dom (map_of (agent_classes c)))"
    and "dom (map_of (agent_teams c')) = insert j (dom (map_of (agent_teams c)))"
    and "agents c' = agents c" and "game_states c' = game_states c"
    and "game_number c' = game_number c"
  using assms
  by (auto simp add: register_agent_def effect_defs Let_def update_conv')

lemma agent_only_domains:
  assumes "process decide m c = Returned () c'"
    and "m = REQUEST_BEHAVIOR_COUNT_MSG j \<or> m = REQUEST_POLICY_MSG j \<or> m = POLICY_MSG j p"
  shows "dom (map_of (agents c')) = dom (map_of (agents c))"
    and "agent_classes c' = agent_classes c" and "agent_teams c' = agent_teams c"
    and "game_states c' = game_states c" and "game_number c' = game_number c"
  using assms
  by (auto simp add: request_behavior_count_def send_policy_request_def set_agent_policy_def
        effect_defs Let_def update_conv' split: option.splits if_splits)

subsection \<open>The dictionaries stay consistent\<close>

lemma consistent_init: "consistent init_controller"
  by (simp add: consistent_def init_controller_def)

lemma consistent_process:
  assumes "consistent c" and "process decide m c = Returned () c'"
  shows "consistent c'"
proof (cases m)
  case (STATE_MSG s)
  show ?thesis
    using state_domains [OF assms(2) [unfolded STATE_MSG]] assms(1)
    by (simp add: consistent_def)
next
  case (REQUEST_INIT_MSG j)
  show ?thesis
    using init_domains [OF assms(2) [unfolded REQUEST_INIT_MSG]] assms(1)
    unfolding consistent_def by (simp only:) blast
next
  case (REQUEST_GAME_START_MSG j w h)
  show ?thesis
    using game_start_domains [OF assms(2) [unfolded REQUEST_GAME_START_MSG]] assms(1)
    unfolding consistent_def by (simp only:) blast
next
  case (REQUEST_REGISTER_MSG j t k)
  show ?thesis
    using register_domains [OF assms(2) [unfolded REQUEST_REGISTER_MSG]] assms(1)
    unfolding consistent_def by (simp only:) blast
next
  case (REQUEST_BEHAVIOR_COUNT_MSG j)
  show ?thesis
    using agent_only_domains [OF assms(2), of j] REQUEST_BEHAVIOR_COUNT_MSG assms(1)
    by (simp add: consistent_def)
next
  case (REQUEST_POLICY_MSG j)
  show ?thesis
    using agent_only_domains [OF assms(2), of j] REQUEST_POLICY_MSG assms(1)
    by (simp add: consistent_def)
next
  case (POLICY_MSG j p)
  show ?thesis
    using agent_only_domains [OF assms(2), of j p] POLICY_MSG assms(1)
    by (simp add: consistent_def)
next
  case (OTHER_MSG k)
  then show ?thesis using assms by simp
qed

lemma consistent_run_loop:
  "consistent c \<Longrightarrow> run_loop decide ms c = Returned () c' \<Longrightarrow> consistent c'"
proof (induction ms arbitrary: c)
  case Nil
  then show ?case by simp
next
  case (Cons m ms)
  from Cons.prems(2) obtain c1 where 1: "process decide m c = Returned () c1"
    and 2: "run_loop decide ms c1 = Returned () c'"
    by (auto split: result.splits)
  show ?case
    by (rule Cons.IH [OF consistent_process [OF Cons.prems(1) 1] 2])
qed

subsection \<open>Each agent owns at most one Session State\<close>

text \<open>
  A Python dictionary holds a key once. The list that stands for \<open>self.game_states\<close> starts
  empty and is only written by \<open>AList.update\<close> and \<open>AList.delete\<close>, so its keys stay
  distinct along every run.
\<close>

lemma distinct_sessions_init: "distinct (map fst (game_states init_controller))"
  by (simp add: init_controller_def)

lemma state_sessions:
  assumes "process decide (STATE_MSG s) c = Returned () c'"
  shows "\<exists>gs'. game_states c' = AList.update (sm_agent_id s) gs' (game_states c)"
proof -
  obtain gs where gs: "map_of (game_states c) (sm_agent_id s) = Some gs"
    using assms by (cases "map_of (game_states c) (sm_agent_id s)")
      (simp_all add: send_agent_action_no_session)
  obtain ag where ag: "map_of (agents c) (sm_agent_id s) = Some ag"
    using assms gs by (cases "map_of (agents c) (sm_agent_id s)")
      (simp_all add: send_agent_action_no_agent)
  obtain act ag' where d: "decide ag (observed s gs) (sm_executed_action s) (sm_reward s)
          (sm_legal_actions s) (sm_test_mode s) = (act, ag')"
    by (cases "decide ag (observed s gs) (sm_executed_action s) (sm_reward s)
          (sm_legal_actions s) (sm_test_mode s)")
  show ?thesis
    using send_agent_action_returns [where decide = decide, OF gs ag d] assms
    by (auto simp add: effect_defs)
qed

lemma game_start_sessions:
  assumes "process decide (REQUEST_GAME_START_MSG j w h) c = Returned () c'"
  shows "\<exists>gs'. game_states c' = AList.update j gs' (game_states c) \<or>
               game_states c' = AList.update j gs' (AList.delete j (game_states c))"
  using assms
  by (auto simp add: start_game_for_agent_def effect_defs Let_def
        split: sum.splits option.splits if_splits)

lemma distinct_sessions_process:
  assumes "distinct (map fst (game_states c))" and "process decide m c = Returned () c'"
  shows "distinct (map fst (game_states c'))"
proof (cases m)
  case (STATE_MSG s)
  show ?thesis
    using state_sessions [OF assms(2) [unfolded STATE_MSG]] assms(1)
    by (auto simp add: distinct_update)
next
  case (REQUEST_INIT_MSG j)
  show ?thesis
    using init_domains(7) [OF assms(2) [unfolded REQUEST_INIT_MSG]] assms(1) by simp
next
  case (REQUEST_GAME_START_MSG j w h)
  show ?thesis
    using game_start_sessions [OF assms(2) [unfolded REQUEST_GAME_START_MSG]] assms(1)
    by (auto simp add: distinct_update distinct_delete)
next
  case (REQUEST_REGISTER_MSG j t k)
  show ?thesis
    using register_domains(4) [OF assms(2) [unfolded REQUEST_REGISTER_MSG]] assms(1) by simp
next
  case (REQUEST_BEHAVIOR_COUNT_MSG j)
  show ?thesis
    using agent_only_domains(4) [OF assms(2), of j] REQUEST_BEHAVIOR_COUNT_MSG assms(1)
    by simp
next
  case (REQUEST_POLICY_MSG j)
  show ?thesis
    using agent_only_domains(4) [OF assms(2), of j] REQUEST_POLICY_MSG assms(1) by simp
next
  case (POLICY_MSG j p)
  show ?thesis
    using agent_only_domains(4) [OF assms(2), of j p] POLICY_MSG assms(1) by simp
next
  case (OTHER_MSG k)
  then show ?thesis using assms by simp
qed

lemma distinct_sessions_run_loop:
  "distinct (map fst (game_states c)) \<Longrightarrow> run_loop decide ms c = Returned () c' \<Longrightarrow>
     distinct (map fst (game_states c'))"
proof (induction ms arbitrary: c)
  case Nil
  then show ?case by simp
next
  case (Cons m ms)
  from Cons.prems(2) obtain c1 where 1: "process decide m c = Returned () c1"
    and 2: "run_loop decide ms c1 = Returned () c'"
    by (auto split: result.splits)
  show ?case
    by (rule Cons.IH [OF distinct_sessions_process [OF Cons.prems(1) 1] 2])
qed

lemma distinct_sessions_run:
  assumes "run decide ms init_controller = Returned () c'"
  shows "distinct (map fst (game_states c'))"
proof -
  have "distinct (map fst (game_states
      ((log Now_running init_controller)\<lparr>last_action := Some ''Stop''\<rparr>)))"
    by (simp add: init_controller_def log_def)
  then show ?thesis
    using assms unfolding run_def by (rule distinct_sessions_run_loop)
qed

subsection \<open>The episode counter along a run\<close>

lemma process_game_number:
  assumes "process decide m c = Returned () c'"
  shows "map_of (game_number c') i = counter_step i m (map_of (game_number c) i)"
proof (cases m)
  case (STATE_MSG s)
  then show ?thesis using assms state_domains(5) [of decide s c c'] by simp
next
  case (REQUEST_INIT_MSG j)
  then show ?thesis using assms
    by (auto simp add: initialize_agent_def effect_defs Let_def update_conv'
          split: sum.splits option.splits if_splits)
next
  case (REQUEST_GAME_START_MSG j w h)
  then show ?thesis using assms
    by (auto simp add: start_game_for_agent_def effect_defs Let_def update_conv'
          split: sum.splits option.splits if_splits)
next
  case (REQUEST_REGISTER_MSG j t k)
  then show ?thesis using assms by (auto simp add: register_agent_def effect_defs Let_def)
next
  case (REQUEST_BEHAVIOR_COUNT_MSG j)
  then show ?thesis using assms
    by (auto simp add: request_behavior_count_def effect_defs Let_def split: option.splits)
next
  case (REQUEST_POLICY_MSG j)
  then show ?thesis using assms
    by (auto simp add: send_policy_request_def effect_defs split: option.splits)
next
  case (POLICY_MSG j p)
  then show ?thesis using assms
    by (auto simp add: set_agent_policy_def effect_defs split: option.splits)
next
  case (OTHER_MSG k)
  then show ?thesis using assms by simp
qed

lemma run_loop_game_number:
  "run_loop decide ms c = Returned () c' \<Longrightarrow>
     map_of (game_number c') i = episode_counter i ms (map_of (game_number c) i)"
proof (induction ms arbitrary: c)
  case Nil
  then show ?case by simp
next
  case (Cons m ms)
  then obtain c1 where 1: "process decide m c = Returned () c1"
    and 2: "run_loop decide ms c1 = Returned () c'"
    by (auto split: result.splits)
  show ?case
    using Cons.IH [OF 2] process_game_number [OF 1, of i] by simp
qed

lemma run_loop_append:
  "run_loop decide (ms @ ms') c =
     (case run_loop decide ms c of Raised e c1 \<Rightarrow> Raised e c1
      | Returned u c1 \<Rightarrow> run_loop decide ms' c1)"
  by (induction ms arbitrary: c) (auto split: result.splits)

lemma game_start_seeds_counter:
  assumes "process decide (REQUEST_GAME_START_MSG i w h) c = Returned () c'"
  shows "map_option gs_iteration (map_of (game_states c') i) = map_of (game_number c) i"
  using assms
  by (auto simp add: start_game_for_agent_def effect_defs Let_def update_conv' GameState_def
        split: sum.splits option.splits if_splits)

subsection \<open>Where the reply stands among the writes\<close>





section \<open>The episode counter\<close>

text \<open>
  C1, as the specification states it: the first game start of an agent seeds iteration 0
  and each later one seeds 1, 2, 3, ... whatever INIT messages come in between, since
  only the first INIT resets the counter. The controller does otherwise:
  \<open>__initialize_agent__\<close> assigns \<open>self.game_number[agent_id] = 0\<close> on every call.
  After a registration, an INIT and a game start the counter of agent 1 is 1; a second
  INIT puts it back to 0 and the game start that follows seeds iteration 0, not 1.
\<close>

theorem second_init_restarts_the_count:
  "returned (run first_legal
      (pacman_started @ [REQUEST_INIT_MSG 1, REQUEST_GAME_START_MSG 1 10 10]) init_controller) \<and>
   map_of (game_number (after_messages pacman_started)) 1 = Some 1 \<and>
   map_of (game_number (after_messages (pacman_started @ [REQUEST_INIT_MSG 1]))) 1 = Some 0 \<and>
   map_option gs_iteration (map_of (game_states (after_messages
      (pacman_started @ [REQUEST_INIT_MSG 1, REQUEST_GAME_START_MSG 1 10 10]))) 1) = Some 0"
  by (simp add: model_defs)

text \<open>
  C1, amended: every INIT for an agent sets its episode counter to 0, every game start for
  it seeds the new Session State with the counter and then adds one, and no other message
  changes the counter. So a game start seeds the number of game starts handled for that
  agent since its latest INIT: 0 for the first one after an INIT, then 1, 2, 3, ... in
  order. \<open>episode_counter\<close> computes that number from the messages handled before.
\<close>

theorem game_start_seeds_starts_since_init:
  assumes "run_loop decide (ms @ [REQUEST_GAME_START_MSG i w h]) c = Returned () c'"
  shows "map_option gs_iteration (map_of (game_states c') i) =
           episode_counter i ms (map_of (game_number c) i) \<and>
         map_of (game_number c') i =
           map_option (\<lambda>k. k + 1) (episode_counter i ms (map_of (game_number c) i))"
proof -
  from assms obtain c1 where 1: "run_loop decide ms c = Returned () c1"
    and 2: "process decide (REQUEST_GAME_START_MSG i w h) c1 = Returned () c'"
    by (auto simp add: run_loop_append split: result.splits)
  show ?thesis
    using run_loop_game_number [OF 1, of i] game_start_seeds_counter [OF 2]
      process_game_number [OF 2, of i] by simp
qed

theorem game_start_seeds_starts_since_init_witness:
  "run_loop first_legal
     ((pacman_started @ [REQUEST_GAME_START_MSG 1 10 10]) @ [REQUEST_GAME_START_MSG 1 10 10])
     init_controller =
   Returned () (controller_of (run_loop first_legal
     ((pacman_started @ [REQUEST_GAME_START_MSG 1 10 10]) @ [REQUEST_GAME_START_MSG 1 10 10])
     init_controller)) \<and>
   episode_counter 1 (pacman_started @ [REQUEST_GAME_START_MSG 1 10 10])
     (map_of (game_number init_controller) 1) = Some 2 \<and>
   map_option gs_iteration (map_of (game_states (controller_of (run_loop first_legal
     ((pacman_started @ [REQUEST_GAME_START_MSG 1 10 10]) @ [REQUEST_GAME_START_MSG 1 10 10])
     init_controller))) 1) = Some 2 \<and>
   map_of (game_number (controller_of (run_loop first_legal
     ((pacman_started @ [REQUEST_GAME_START_MSG 1 10 10]) @ [REQUEST_GAME_START_MSG 1 10 10])
     init_controller))) 1 = Some 3"
  using game_start_seeds_starts_since_init [of first_legal
      "pacman_started @ [REQUEST_GAME_START_MSG 1 10 10]" 1 10 10 init_controller
      "controller_of (run_loop first_legal
         ((pacman_started @ [REQUEST_GAME_START_MSG 1 10 10]) @ [REQUEST_GAME_START_MSG 1 10 10])
         init_controller)"]
  by (simp add: model_defs)

section \<open>Predictions after a state message\<close>

text \<open>
  C2, as the specification states it: after a state message \<open>predict_agent\<close> has been
  called for every agent known to the acting agent's Session State, also for agents it
  has observed earlier and that are absent from this payload. The controller does
  otherwise: the loop in \<open>__choose_action__\<close> walks \<open>self.game_states\<close>, the agents that
  own a Session State in the controller. Agent 2 below is registered as a ghost and
  observed at (3, 4), so the Session State of agent 1 lists it as an enemy and holds its
  position; it has started no game, and after two state messages the only calls received
  are for agent 1.
\<close>

theorem observed_enemy_is_not_predicted:
  "returned (run first_legal
      (pacman_and_ghost @ [STATE_MSG (example_state 1 [(2, (3, 4))] []),
                           STATE_MSG (example_state 1 [] [])]) init_controller) \<and>
   map_option (\<lambda>gs. (gs_enemy_ids gs, gs_agent_positions gs, gs_predicted gs))
     (map_of (game_states (after_messages
        (pacman_and_ghost @ [STATE_MSG (example_state 1 [(2, (3, 4))] []),
                             STATE_MSG (example_state 1 [] [])]))) 1) =
     Some ([2], [(2, (3, 4))], [(1, ''North''), (1, ''North'')])"
  by (simp add: model_defs)

text \<open>
  C2, amended: handling a state message for an agent that has a Session State and an
  instance returns. The action replied and cached as \<open>last_action\<close> is the one the
  decision routine of that instance returned (\<open>decided_action\<close>). With that action
  \<open>predict_agent\<close> is called on the acting agent's Session State exactly once for every
  agent that owns a Session State in the controller, the acting agent among them, and
  for no other agent: the calls added are pairwise different, and they are the pairs of
  such an agent and the action. The order of the calls is that of the dictionary and is
  not stated. The keys of the dictionary are distinct, as in every run
  (\<open>distinct_sessions_init\<close>, \<open>distinct_sessions_process\<close>).
\<close>

theorem predict_agent_called_for_every_session:
  assumes "map_of (game_states c) (sm_agent_id m) = Some gs"
    and "map_of (agents c) (sm_agent_id m) = Some ag"
    and "distinct (map fst (game_states c))"
  shows "\<exists>c' gs' calls. process decide (STATE_MSG m) c = Returned () c' \<and>
     sent c' = sent c @ [ActionMessage (sm_agent_id m) (decided_action decide m ag gs)] \<and>
     last_action c' = Some (decided_action decide m ag gs) \<and>
     map_of (game_states c') (sm_agent_id m) = Some gs' \<and>
     gs_predicted gs' = gs_predicted gs @ calls \<and>
     distinct calls \<and>
     set calls = (\<lambda>j. (j, decided_action decide m ag gs)) ` dom (map_of (game_states c)) \<and>
     sm_agent_id m \<in> dom (map_of (game_states c))"
proof -
  let ?act = "decided_action decide m ag gs"
  obtain ag' where d: "decide ag (observed m gs) (sm_executed_action m) (sm_reward m)
              (sm_legal_actions m) (sm_test_mode m) = (?act, ag')"
    by (cases "decide ag (observed m gs) (sm_executed_action m) (sm_reward m)
              (sm_legal_actions m) (sm_test_mode m)") (simp add: decided_action_def)
  let ?calls = "map (\<lambda>j. (j, ?act)) (map fst (game_states c))"
  have inj: "inj_on (\<lambda>j. (j, ?act)) A" for A
    by (simp add: inj_on_def)
  have dist: "distinct ?calls"
    using assms(3) by (simp only: distinct_map inj simp_thms)
  have keys: "set ?calls = (\<lambda>j. (j, ?act)) ` dom (map_of (game_states c))"
    by (simp add: dom_map_of_conv_image_fst image_image)
  have mem: "sm_agent_id m \<in> dom (map_of (game_states c))"
    using assms(1) by auto
  let ?c' = "(server_send (ActionMessage (sm_agent_id m) ?act)
       (c\<lparr>agents := AList.update (sm_agent_id m) ag' (agents c),
          game_states := AList.update (sm_agent_id m)
             (predict_agents (map fst (game_states c)) ?act (observed m gs)) (game_states c)\<rparr>))
       \<lparr>last_action := Some ?act\<rparr>"
  have run: "process decide (STATE_MSG m) c = Returned () ?c'"
    using send_agent_action_returns [where decide = decide, OF assms(1) assms(2) d] by simp
  have pred: "gs_predicted (predict_agents (map fst (game_states c)) ?act (observed m gs)) =
      gs_predicted gs @ ?calls"
    by (simp add: predict_agents_predicted observed_predicted)
  show ?thesis
    using run pred dist keys mem
    by (intro exI [of _ ?c']
          exI [of _ "predict_agents (map fst (game_states c)) ?act (observed m gs)"]
          exI [of _ ?calls])
       (simp add: effect_defs update_conv')
qed

theorem predict_agent_called_for_every_session_witness:
  "map_of (game_states (after_messages
      (pacman_and_ghost @ [REQUEST_INIT_MSG 2, REQUEST_GAME_START_MSG 2 10 10]))) 1 =
     Some (the (map_of (game_states (after_messages
      (pacman_and_ghost @ [REQUEST_INIT_MSG 2, REQUEST_GAME_START_MSG 2 10 10]))) 1)) \<and>
   map_of (agents (after_messages
      (pacman_and_ghost @ [REQUEST_INIT_MSG 2, REQUEST_GAME_START_MSG 2 10 10]))) 1 =
     Some (the (map_of (agents (after_messages
      (pacman_and_ghost @ [REQUEST_INIT_MSG 2, REQUEST_GAME_START_MSG 2 10 10]))) 1)) \<and>
   distinct (map fst (game_states (after_messages
      (pacman_and_ghost @ [REQUEST_INIT_MSG 2, REQUEST_GAME_START_MSG 2 10 10])))) \<and>
   dom (map_of (game_states (after_messages
      (pacman_and_ghost @ [REQUEST_INIT_MSG 2, REQUEST_GAME_START_MSG 2 10 10])))) = {1, 2} \<and>
   decided_action first_legal (example_state 1 [] [])
     (the (map_of (agents (after_messages
        (pacman_and_ghost @ [REQUEST_INIT_MSG 2, REQUEST_GAME_START_MSG 2 10 10]))) 1))
     (the (map_of (game_states (after_messages
        (pacman_and_ghost @ [REQUEST_INIT_MSG 2, REQUEST_GAME_START_MSG 2 10 10]))) 1)) =
     ''North'' \<and>
   map_option (\<lambda>gs. set (gs_predicted gs)) (map_of (game_states (controller_of
      (process first_legal (STATE_MSG (example_state 1 [] []))
         (after_messages
            (pacman_and_ghost @ [REQUEST_INIT_MSG 2, REQUEST_GAME_START_MSG 2 10 10]))))) 1) =
     Some {(1, ''North''), (2, ''North'')} \<and>
   map_option (\<lambda>gs. length (gs_predicted gs)) (map_of (game_states (controller_of
      (process first_legal (STATE_MSG (example_state 1 [] []))
         (after_messages
            (pacman_and_ghost @ [REQUEST_INIT_MSG 2, REQUEST_GAME_START_MSG 2 10 10]))))) 1) =
     Some 2"
  using predict_agent_called_for_every_session [of
      "after_messages (pacman_and_ghost @ [REQUEST_INIT_MSG 2, REQUEST_GAME_START_MSG 2 10 10])"
      "example_state 1 [] []"
      "the (map_of (game_states (after_messages
         (pacman_and_ghost @ [REQUEST_INIT_MSG 2, REQUEST_GAME_START_MSG 2 10 10]))) 1)"
      "the (map_of (agents (after_messages
         (pacman_and_ghost @ [REQUEST_INIT_MSG 2, REQUEST_GAME_START_MSG 2 10 10]))) 1)"
      first_legal]
  by (simp add: model_defs decided_action_def observed_def)

section \<open>One reply per request\<close>



section \<open>Unrecognized messages\<close>

text \<open>
  C4. A message whose kind is none of the seven in the dispatch chain invokes no handler:
  nothing is sent and the controller, with its registry, agent instances, Session States
  and episode counters, is returned as it was.
\<close>

theorem unrecognized_message_is_dropped:
  "process decide (OTHER_MSG kind) c = Returned () c"
  by simp

section \<open>A state message before any game start\<close>

text \<open>
  C5, as the specification states it: a state message for an agent without a Session State
  fails that one request and the router goes on. The controller does otherwise: nothing
  between \<open>__send_agent_action__\<close> and \<open>run\<close> catches the KeyError, so the loop ends.
  Below, agent 1 is registered, initialized and started; a state message for agent 2
  then stops the run with three replies sent, and the behavior-count request of agent 1
  that follows is never handled.
\<close>

theorem lookup_failure_stops_the_router:
  "raised_error (run first_legal
      (pacman_started @ [STATE_MSG (example_state 2 [] []), REQUEST_BEHAVIOR_COUNT_MSG 1])
      init_controller) = Some (KeyError 2) \<and>
   sent (after_messages
      (pacman_started @ [STATE_MSG (example_state 2 [] []), REQUEST_BEHAVIOR_COUNT_MSG 1])) =
     [AckMessage, AckMessage, AckMessage]"
  by (simp add: model_defs)

text \<open>
  C5, amended: handling a state message for an agent without a Session State raises
  KeyError for that agent before anything is written and before any reply is sent, so
  the controller at the raise is the controller as it was, every other agent's state
  included; the error is not caught, and the run loop stops at that message without
  handling the ones behind it.
\<close>

theorem state_without_session_raises:
  assumes "map_of (game_states c) (sm_agent_id m) = None"
  shows "process decide (STATE_MSG m) c = Raised (KeyError (sm_agent_id m)) c \<and>
         run_loop decide (STATE_MSG m # rest) c = Raised (KeyError (sm_agent_id m)) c"
  using assms by (simp add: send_agent_action_no_session)

theorem state_without_session_raises_witness:
  "map_of (game_states (after_messages pacman_started)) (sm_agent_id (example_state 2 [] [])) =
     None \<and>
   process first_legal (STATE_MSG (example_state 2 [] [])) (after_messages pacman_started) =
     Raised (KeyError 2) (after_messages pacman_started) \<and>
   run_loop first_legal
     (STATE_MSG (example_state 2 [] []) # [REQUEST_BEHAVIOR_COUNT_MSG 1])
     (after_messages pacman_started) =
     Raised (KeyError 2) (after_messages pacman_started)"
  using state_without_session_raises [of "after_messages pacman_started"
      "example_state 2 [] []" first_legal "[REQUEST_BEHAVIOR_COUNT_MSG 1]"]
  by (simp add: model_defs)

section \<open>INIT replaces the agent instance\<close>

text \<open>
  C6. For an agent with a registration record, INIT returns and leaves under that agent
  an instance built anew from the registered class, the agent identifier and the allies
  and enemies computed from the current registrations; nothing of the instance that was
  there before enters it, and every other agent keeps its instance. The behavior counter
  of the new instance reads 0.
\<close>

theorem init_builds_a_fresh_instance:
  assumes "map_of (agent_classes c) i = Some cls" and "map_of (agent_teams c) i = Some team"
  shows "\<exists>c' allies enemies. process decide (REQUEST_INIT_MSG i) c = Returned () c' \<and>
     get_allies i c = Inr allies \<and> get_enemies i c = Inr enemies \<and>
     map_of (agents c') = (map_of (agents c))(i \<mapsto> new_agent cls i allies enemies) \<and>
     map_option behavior_count (map_of (agents c') i) = Some 0"
proof -
  from initialize_agent_returns [OF assms] obtain allies enemies c'
    where "get_allies i c = Inr allies" "get_enemies i c = Inr enemies"
      "initialize_agent i c = Returned () c'"
      "map_of (agents c') = (map_of (agents c))(i \<mapsto> new_agent cls i allies enemies)"
    by blast
  then show ?thesis
    by (intro exI [of _ c'] exI [of _ allies] exI [of _ enemies]) (simp add: new_agent_def)
qed

theorem init_builds_a_fresh_instance_witness:
  "map_of (agent_classes (after_messages
      (pacman_started @ [STATE_MSG (example_state 1 [] [])]))) 1 = Some ''PacmanAgent'' \<and>
   map_of (agent_teams (after_messages
      (pacman_started @ [STATE_MSG (example_state 1 [] [])]))) 1 = Some ''pacman'' \<and>
   map_option behavior_count (map_of (agents (after_messages
      (pacman_started @ [STATE_MSG (example_state 1 [] [])]))) 1) = Some 1 \<and>
   map_option behavior_count (map_of (agents (controller_of
      (process first_legal (REQUEST_INIT_MSG 1)
         (after_messages (pacman_started @ [STATE_MSG (example_state 1 [] [])]))))) 1) = Some 0"
  using init_builds_a_fresh_instance [of
      "after_messages (pacman_started @ [STATE_MSG (example_state 1 [] [])])"
      1 "''PacmanAgent''" "''pacman''" first_legal]
  by (simp add: model_defs)

section \<open>Registering again\<close>

text \<open>
  C7. After REGISTER(i, t1, k1) followed by REGISTER(i, t2, k2) the dictionaries are those
  that REGISTER(i, t2, k2) alone would have left, so whatever is computed from them
  later cannot tell the two histories apart. In particular the team and class of \<open>i\<close> are
  \<open>t2\<close> and \<open>k2\<close>, the allies and enemies of any agent \<open>j\<close> are the same in both, the allies
  of \<open>i\<close> are the other agents registered with team \<open>t2\<close>, its enemies the other agents
  registered with another team, and an INIT for \<open>i\<close> builds an instance of class \<open>k2\<close> with
  these. Only the printed log lines keep the first registration.
\<close>

theorem reregistration_overwrites:
  "\<exists>c1 c2 d c3 allies enemies.
     process decide (REQUEST_REGISTER_MSG i t1 k1) c = Returned () c1 \<and>
     process decide (REQUEST_REGISTER_MSG i t2 k2) c1 = Returned () c2 \<and>
     process decide (REQUEST_REGISTER_MSG i t2 k2) c = Returned () d \<and>
     tables_of c2 = tables_of d \<and>
     map_of (agent_teams c2) i = Some t2 \<and> map_of (agent_classes c2) i = Some k2 \<and>
     get_allies j c2 = get_allies j d \<and> get_enemies j c2 = get_enemies j d \<and>
     get_allies i c2 = Inr allies \<and>
     set allies = {j. j \<noteq> i \<and> map_of (agent_teams c) j = Some t2} \<and>
     get_enemies i c2 = Inr enemies \<and>
     set enemies = {j. j \<noteq> i \<and> (\<exists>u. map_of (agent_teams c) j = Some u \<and> u \<noteq> t2)} \<and>
     process decide (REQUEST_INIT_MSG i) c2 = Returned () c3 \<and>
     map_of (agents c3) i = Some (new_agent k2 i allies enemies)"
proof -
  define c1 where "c1 = controller_of (register_agent i t1 k1 c)"
  define c2 where "c2 = controller_of (register_agent i t2 k2 c1)"
  define d where "d = controller_of (register_agent i t2 k2 c)"
  have r1: "process decide (REQUEST_REGISTER_MSG i t1 k1) c = Returned () c1"
    and r2: "process decide (REQUEST_REGISTER_MSG i t2 k2) c1 = Returned () c2"
    and r3: "process decide (REQUEST_REGISTER_MSG i t2 k2) c = Returned () d"
    by (simp_all add: c1_def c2_def d_def register_agent_returns)
  have teams: "agent_teams c2 = AList.update i t2 (agent_teams c)"
    and classes: "agent_classes c2 = AList.update i k2 (agent_classes c)"
    and same: "tables_of c2 = tables_of d"
    by (simp_all add: c1_def c2_def d_def register_agent_returns effect_defs)
  have teams_eq: "agent_teams c2 = agent_teams d"
    using same by (simp add: tables_of_def)
  have t: "map_of (agent_teams c2) i = Some t2" and k: "map_of (agent_classes c2) i = Some k2"
    by (simp_all add: teams classes update_conv')
  from initialize_agent_returns [OF k t] obtain allies enemies c3
    where a: "get_allies i c2 = Inr allies" and e: "get_enemies i c2 = Inr enemies"
      and init: "initialize_agent i c2 = Returned () c3"
      and inst: "map_of (agents c3) = (map_of (agents c2))(i \<mapsto> new_agent k2 i allies enemies)"
    by blast
  have sa: "set allies = {j. j \<noteq> i \<and> map_of (agent_teams c) j = Some t2}"
    using get_allies_set [OF a t] by (auto simp add: teams update_conv')
  have se: "set enemies = {j. j \<noteq> i \<and> (\<exists>u. map_of (agent_teams c) j = Some u \<and> u \<noteq> t2)}"
    using get_enemies_set [OF e t] by (auto simp add: teams update_conv')
  show ?thesis
    using r1 r2 r3 same t k a e sa se init inst
      get_allies_cong [OF teams_eq, of j] get_enemies_cong [OF teams_eq, of j]
    by (intro exI [of _ c1] exI [of _ c2] exI [of _ d] exI [of _ c3] exI [of _ allies]
          exI [of _ enemies]) simp
qed

section \<open>A game start replaces the Session State\<close>

text \<open>
  C8. For an agent with an instance, in a controller whose dictionaries are consistent, a
  game start returns and leaves under that agent the Session State that \<open>GameState\<close>
  builds from the map size, no walls, the agent identifier, the allies and enemies
  computed from the registrations, the eater flag and the episode counter. Nothing of
  the Session State that was there before enters it: it holds no observed position and
  no fragility flag.
\<close>

theorem game_start_builds_fresh_session:
  assumes "consistent c" and "map_of (agents c) i = Some ag"
  shows "\<exists>c' allies enemies team n.
     process decide (REQUEST_GAME_START_MSG i w h) c = Returned () c' \<and>
     get_allies i c = Inr allies \<and> get_enemies i c = Inr enemies \<and>
     map_of (agent_teams c) i = Some team \<and> map_of (game_number c) i = Some n \<and>
     map_of (game_states c') i =
       Some (GameState w h [] i allies enemies (team = ''pacman'') n) \<and>
     map_option gs_agent_positions (map_of (game_states c') i) = Some [] \<and>
     map_option gs_fragile_agents (map_of (game_states c') i) = Some []"
proof -
  have "i \<in> dom (map_of (agents c))" using assms(2) by auto
  then have "i \<in> dom (map_of (agent_teams c))" "i \<in> dom (map_of (game_number c))"
    using assms(1) by (auto simp add: consistent_def)
  then obtain team n
    where "map_of (agent_teams c) i = Some team" "map_of (game_number c) i = Some n"
    by auto
  then show ?thesis
    by (auto simp add: start_game_for_agent_def get_allies_def get_enemies_def effect_defs
          Let_def update_conv' GameState_def)
qed

theorem game_start_builds_fresh_session_witness:
  "consistent (after_messages
      (pacman_and_ghost @ [STATE_MSG (example_state 1 [(2, (3, 4))] [(2, True)])])) \<and>
   map_option (\<lambda>gs. (gs_agent_positions gs, gs_fragile_agents gs))
     (map_of (game_states (after_messages
        (pacman_and_ghost @ [STATE_MSG (example_state 1 [(2, (3, 4))] [(2, True)])]))) 1) =
     Some ([(2, (3, 4))], [(2, True)]) \<and>
   map_option (\<lambda>gs. (gs_agent_positions gs, gs_fragile_agents gs))
     (map_of (game_states (controller_of
        (process first_legal (REQUEST_GAME_START_MSG 1 10 10)
           (after_messages
              (pacman_and_ghost @
                 [STATE_MSG (example_state 1 [(2, (3, 4))] [(2, True)])]))))) 1) =
     Some ([], [])"
  using game_start_builds_fresh_session [of
      "after_messages
         (pacman_and_ghost @ [STATE_MSG (example_state 1 [(2, (3, 4))] [(2, True)])])"
      1
      "the (map_of (agents (after_messages
         (pacman_and_ghost @ [STATE_MSG (example_state 1 [(2, (3, 4))] [(2, True)])]))) 1)"
      first_legal 10 10]
  by (simp add: model_defs consistent_def)

section \<open>Reading the behavior counter\<close>

text \<open>
  C9. For an agent with an instance whose behavior counter is \<open>n\<close>, a behavior-count
  request returns, replies with \<open>BehaviorCountMessage n\<close>, the value before the reset, and
  leaves the counter at 0; the same request again replies with 0.
\<close>

theorem behavior_count_is_read_then_reset:
  assumes "map_of (agents c) i = Some a"
  shows "\<exists>c1 c2. process decide (REQUEST_BEHAVIOR_COUNT_MSG i) c = Returned () c1 \<and>
     sent c1 = sent c @ [BehaviorCountMessage (behavior_count a)] \<and>
     map_option behavior_count (map_of (agents c1) i) = Some 0 \<and>
     process decide (REQUEST_BEHAVIOR_COUNT_MSG i) c1 = Returned () c2 \<and>
     sent c2 = sent c1 @ [BehaviorCountMessage 0]"
  using assms
  by (simp add: request_behavior_count_def effect_defs update_conv' reset_behavior_count_def)

theorem behavior_count_is_read_then_reset_witness:
  "map_option behavior_count (map_of (agents (after_messages
      (pacman_started @ [STATE_MSG (example_state 1 [] []),
                         STATE_MSG (example_state 1 [] [])]))) 1) = Some 2 \<and>
   last (sent (controller_of (process first_legal (REQUEST_BEHAVIOR_COUNT_MSG 1)
      (after_messages
         (pacman_started @ [STATE_MSG (example_state 1 [] []),
                            STATE_MSG (example_state 1 [] [])]))))) =
     BehaviorCountMessage 2 \<and>
   last (sent (controller_of (process first_legal (REQUEST_BEHAVIOR_COUNT_MSG 1)
      (controller_of (process first_legal (REQUEST_BEHAVIOR_COUNT_MSG 1)
         (after_messages
            (pacman_started @ [STATE_MSG (example_state 1 [] []),
                               STATE_MSG (example_state 1 [] [])]))))))) =
     BehaviorCountMessage 0"
  using behavior_count_is_read_then_reset [of
      "after_messages
         (pacman_started @ [STATE_MSG (example_state 1 [] []),
                            STATE_MSG (example_state 1 [] [])])"
      1
      "the (map_of (agents (after_messages
         (pacman_started @ [STATE_MSG (example_state 1 [] []),
                            STATE_MSG (example_state 1 [] [])]))) 1)"
      first_legal]
  by (simp add: model_defs)

section \<open>What a registration leaves alone\<close>

text \<open>
  C10. A registration always returns. It writes the entry of its agent in the class
  dictionary and in the team dictionary and no other entry of either; the agent
  instances, the Session States and the episode counters of all agents, the registered
  one included, are as before.
\<close>

theorem register_writes_only_the_registration:
  "\<exists>c'. process decide (REQUEST_REGISTER_MSG i team cls) c = Returned () c' \<and>
     agents c' = agents c \<and> game_states c' = game_states c \<and>
     game_number c' = game_number c \<and> last_action c' = last_action c \<and>
     map_of (agent_classes c') = (map_of (agent_classes c))(i \<mapsto> cls) \<and>
     map_of (agent_teams c') = (map_of (agent_teams c))(i \<mapsto> team)"
  by (simp add: register_agent_def effect_defs update_conv')

end
